theory Spec2Isabelle
  imports Main "HOL-Library.Word"
begin

unbundle bit_operations_syntax

section \<open>testgen: the test-data generator of gdbm-native-rs (src/testgen.cc)\<close>

text \<open>
  The program creates a GDBM store, fills it according to a named plan and writes a JSON
  description of what it stored. Everything it does to the outside world (the calls into
  libgdbm, the C file API, the clock, the error stream) is recorded as an event, in program
  order; what the outside world answers is read from an environment. A C string is
  modelled by the list of its bytes before the terminating NUL.
\<close>

subsection \<open>printf conversions\<close>

definition digit_char :: "nat \<Rightarrow> char" where
  "digit_char d = ''0123456789'' ! d"

text \<open>The conversions \<^verbatim>\<open>%u\<close>, \<^verbatim>\<open>%lu\<close> and \<^verbatim>\<open>%zu\<close>: an unsigned value in decimal.\<close>

fun dec :: "nat \<Rightarrow> string" where
  "dec n = (if n < 10 then [digit_char n] else dec (n div 10) @ [digit_char (n mod 10)])"

declare dec.simps [simp del]

text \<open>The conversion \<^verbatim>\<open>%d\<close>: a signed value in decimal.\<close>

definition fmt_d :: "int \<Rightarrow> string" where
  "fmt_d i = (if i < 0 then ''-'' @ dec (nat (- i)) else dec (nat i))"

text \<open>
  \<^verbatim>\<open>snprintf(s, n, ...)\<close> followed by reading \<^verbatim>\<open>s\<close> as a C string: of the
  formatted text at most \<open>n - 1\<close> bytes are kept, the last byte of the buffer being the NUL.
\<close>

definition snprintf :: "nat \<Rightarrow> string \<Rightarrow> string" where
  "snprintf n text = take (n - 1) text"

subsection \<open>Records and the generator loop of the basic plan\<close>

definition N_REC :: nat where
  "N_REC = 10001"

record kv_pair =
  key :: string
  value_str :: string

text \<open>
  Lines 74 to 85 of \<^verbatim>\<open>gen_plan_basic\<close>. The counter is an \<^verbatim>\<open>unsigned int\<close>; it
  never exceeds \<open>N_REC\<close>, far below \<open>2 ^ 32\<close>, so a natural number holds it without
  wrap-around.
\<close>

function gen_loop :: "nat \<Rightarrow> kv_pair list \<Rightarrow> kv_pair list" where
  "gen_loop i data =
     (if i < N_REC
      then gen_loop (i + 1)
             (data @ [\<lparr>key = snprintf 128 (''key '' @ dec i),
                       value_str = snprintf 128 (''value '' @ dec i)\<rparr>])
      else data)"
  by pat_completeness auto
termination
  by (relation "measure (\<lambda>(i, data). N_REC - i)") auto

declare gen_loop.simps [simp del]

subsection \<open>The outside world\<close>

datatype outcome = Exit int | Abort

datatype event =
    Gdbm_open string nat "32 word" nat bool
  | Gdbm_count int "64 word"
  | Gdbm_store string string "32 word" int
  | Gdbm_close
  | Fopen string bool
  | Time "64 word"
  | Fprintf string
  | Fclose
  | Stderr string
  | Assert_fail string

text \<open>
  \<open>Gdbm_open path block_size flags mode ok\<close>, \<open>Gdbm_count rc count\<close>,
  \<open>Gdbm_store key content flag rc\<close>, \<open>Fopen path ok\<close> (always with mode \<^verbatim>\<open>"w"\<close>),
  \<open>Time t\<close>, \<open>Fprintf text\<close> (to the JSON file), \<open>Stderr text\<close>,
  \<open>Assert_fail expr\<close> (the diagnostic of a failed \<^verbatim>\<open>assert\<close>).

  The environment: the three flag constants of \<^verbatim>\<open>gdbm.h\<close>, which is not part of the
  program, and the answer to each call. \<open>gdbm_store e n k v\<close> is the return code of the
  store call number \<open>n\<close> (counted from 0) on the handle.
\<close>

record env =
  GDBM_NEWDB :: "32 word"
  GDBM_NUMSYNC :: "32 word"
  GDBM_REPLACE :: "32 word"
  gdbm_open :: "string \<Rightarrow> 32 word \<Rightarrow> bool"
  gdbm_count :: "int \<times> 64 word"
  gdbm_store :: "nat \<Rightarrow> string \<Rightarrow> string \<Rightarrow> int"
  fopen :: "string \<Rightarrow> bool"
  time :: "64 word"

subsection \<open>The JSON text\<close>

text \<open>
  The first \<^verbatim>\<open>fprintf\<close> to the JSON file, the same format string in both plans
  (the record count is printed with \<^verbatim>\<open>%u\<close> in one and \<^verbatim>\<open>%zu\<close> in the other);
  \<^verbatim>\<open>time_t\<close> is a 64-bit value printed with \<^verbatim>\<open>%lu\<close>.
\<close>

definition json_header :: "64 word \<Rightarrow> nat \<Rightarrow> string" where
  "json_header t n =
     ''{'' @
     ''  \"generated_by\":\"testgen\",'' @
     ''  \"generated_time\":\"'' @ dec (unat t) @ ''\",'' @
     ''  \"data_records\": '' @ dec n @ '','' @
     ''  \"data\": [''"

text \<open>Lines 122 to 131: one \<^verbatim>\<open>fprintf\<close> per record, a comma before all but the first.\<close>

fun json_loop :: "bool \<Rightarrow> kv_pair list \<Rightarrow> event list" where
  "json_loop first [] = []"
| "json_loop first (p # ps) =
     Fprintf ((if first then '''' else '','') @
              ''[\"'' @ key p @ ''\",\"'' @ value_str p @ ''\"]'')
     # json_loop (if first then False else first) ps"

subsection \<open>Plan "empty"\<close>

text \<open>
  The program is built without \<^verbatim>\<open>NDEBUG\<close> (see the build line in its header), so
  \<^verbatim>\<open>assert\<close> is active: a false condition prints a diagnostic and calls \<^verbatim>\<open>abort\<close>.
\<close>

definition gen_plan_empty :: "bool \<Rightarrow> string \<Rightarrow> string \<Rightarrow> env \<Rightarrow> outcome \<times> event list" where
  "gen_plan_empty numsync db_fn json_fn e =
     (let flags = GDBM_NEWDB e OR (if numsync then GDBM_NUMSYNC e else 0);
          dbf = gdbm_open e db_fn flags;
          tr1 = [Gdbm_open db_fn 512 flags 438 dbf]
      in if \<not> dbf then (Exit 1, tr1 @ [Stderr ''gdbm_open failed\<newline>''])
         else
           let (rc, count) = gdbm_count e;
               tr2 = tr1 @ [Gdbm_count rc count]
           in if rc \<noteq> 0 then (Exit 1, tr2 @ [Stderr ''gdbm_count failed\<newline>''])
              else if count \<noteq> 0 then (Abort, tr2 @ [Assert_fail ''count == 0''])
              else
                let tr3 = tr2 @ [Gdbm_close];
                    f = fopen e json_fn;
                    tr4 = tr3 @ [Fopen json_fn f]
                in if \<not> f then (Exit 1, tr4 @ [Stderr ''fopen failed\<newline>''])
                   else
                     let t = time e
                     in (Exit 0,
                         tr4 @ [Time t, Fprintf (json_header t 0), Fprintf '']}\<newline>'',
                                Fclose]))"

subsection \<open>Plan "basic"\<close>

text \<open>
  Lines 93 to 102: the records are stored in order; the first non-zero return code prints
  a diagnostic and leaves the function. The result is the events of the loop and whether
  the loop ran to its end.
\<close>

fun store_loop :: "env \<Rightarrow> nat \<Rightarrow> kv_pair list \<Rightarrow> event list \<times> bool" where
  "store_loop e n [] = ([], True)"
| "store_loop e n (p # ps) =
     (let rc = gdbm_store e n (key p) (value_str p)
      in if rc \<noteq> 0
         then ([Gdbm_store (key p) (value_str p) (GDBM_REPLACE e) rc,
                Stderr (''gdbm_store failed, rc '' @ fmt_d rc @ '', key '' @ key p @
                        ''\<newline>'')],
               False)
         else
           let (tr, done) = store_loop e (n + 1) ps
           in (Gdbm_store (key p) (value_str p) (GDBM_REPLACE e) rc # tr, done))"

definition gen_plan_basic :: "bool \<Rightarrow> string \<Rightarrow> string \<Rightarrow> env \<Rightarrow> outcome \<times> event list" where
  "gen_plan_basic numsync db_fn json_fn e =
     (let data = gen_loop 0 [];
          flags = GDBM_NEWDB e OR (if numsync then GDBM_NUMSYNC e else 0);
          dbf = gdbm_open e db_fn flags;
          tr1 = [Gdbm_open db_fn 512 flags 438 dbf]
      in if \<not> dbf then (Exit 1, tr1 @ [Stderr ''gdbm_open failed\<newline>''])
         else
           let (tr2, done) = store_loop e 0 data
           in if \<not> done then (Exit 1, tr1 @ tr2)
              else
                let tr3 = tr1 @ tr2 @ [Gdbm_close];
                    f = fopen e json_fn;
                    tr4 = tr3 @ [Fopen json_fn f]
                in if \<not> f then (Exit 1, tr4 @ [Stderr ''fopen failed\<newline>''])
                   else
                     let t = time e
                     in (Exit 0,
                         tr4 @ [Time t, Fprintf (json_header t (length data))] @
                         json_loop True data @ [Fprintf '']}\<newline>'', Fclose]))"

subsection \<open>usage and main\<close>

definition usage :: "string \<Rightarrow> event list" where
  "usage progname =
     [Stderr (''Usage: '' @ progname @ '' -o output-db -j output-json [options]\<newline>''),
      Stderr (''\<newline>'' @
              ''Required Options:\<newline>'' @
              [CHR 0x09] @ ''-o DB-FILE'' @ [CHR 0x09] @ ''Output db\<newline>'' @
              [CHR 0x09] @ ''-j JSON-FILE'' @ [CHR 0x09] @
                ''Output JSON metadata to file\<newline>'' @
              ''Options:\<newline>'' @
              [CHR 0x09] @ ''-p PLAN'' @ [CHR 0x09] @
                ''Generate according to test-plan PLAN\<newline>'' @
              [CHR 0x09, CHR 0x09, CHR 0x09] @ ''Available plans: basic, empty\<newline>'' @
              [CHR 0x09] @ ''-n Make DB numsync\<newline>'')]"

text \<open>
  The command line as \<^verbatim>\<open>getopt(argc, argv, "o:j:p:n")\<close> reports it: one result per
  option, in order, until it returns -1. \<open>Opt_other\<close> is its answer \<^verbatim>\<open>'?'\<close> to an
  option it does not know or whose argument is missing, which takes the \<^verbatim>\<open>default\<close>
  branch of the switch.
\<close>

datatype getopt_result = Opt_o string | Opt_j string | Opt_p string | Opt_n | Opt_other

record main_vars =
  out_fn :: "string option"
  out_json :: "string option"
  plan :: string
  numsync :: bool

text \<open>The option loop; \<open>None\<close> when the \<^verbatim>\<open>default\<close> branch left \<^verbatim>\<open>main\<close>.\<close>

fun getopt_loop :: "getopt_result list \<Rightarrow> main_vars \<Rightarrow> main_vars option" where
  "getopt_loop [] v = Some v"
| "getopt_loop (Opt_o optarg # rest) v = getopt_loop rest (v\<lparr>out_fn := Some optarg\<rparr>)"
| "getopt_loop (Opt_j optarg # rest) v = getopt_loop rest (v\<lparr>out_json := Some optarg\<rparr>)"
| "getopt_loop (Opt_p optarg # rest) v = getopt_loop rest (v\<lparr>plan := optarg\<rparr>)"
| "getopt_loop (Opt_n # rest) v = getopt_loop rest (v\<lparr>numsync := True\<rparr>)"
| "getopt_loop (Opt_other # rest) v = None"

definition main :: "string \<Rightarrow> getopt_result list \<Rightarrow> env \<Rightarrow> outcome \<times> event list" where
  "main argv0 opts e =
     (case getopt_loop opts
             \<lparr>out_fn = None, out_json = None, plan = ''basic'', numsync = False\<rparr> of
        None \<Rightarrow> (Exit 1, usage argv0)
      | Some v \<Rightarrow>
          (case (out_fn v, out_json v) of
             (Some db_fn, Some json_fn) \<Rightarrow>
               if plan v = ''basic'' then gen_plan_basic (numsync v) db_fn json_fn e
               else if plan v = ''empty'' then gen_plan_empty (numsync v) db_fn json_fn e
               else (Exit 1, [Stderr (''Unknown test plan '' @ plan v @ ''\<newline>'')])
           | _ \<Rightarrow> (Exit 1, usage argv0)))"

subsection \<open>What a run leaves behind\<close>

text \<open>The successful store calls of a run, in order.\<close>

fun store_writes :: "event list \<Rightarrow> (string \<times> string) list" where
  "store_writes [] = []"
| "store_writes (Gdbm_store k v fl rc # tr) =
     (if rc = 0 then (k, v) # store_writes tr else store_writes tr)"
| "store_writes (ev # tr) = store_writes tr"

text \<open>
  The JSON file after a run: \<open>None\<close> when the run never created it; a successful
  \<^verbatim>\<open>fopen\<close> with mode \<^verbatim>\<open>"w"\<close> makes it empty and every \<^verbatim>\<open>fprintf\<close> appends.
\<close>

fun file_event :: "string option \<Rightarrow> event \<Rightarrow> string option" where
  "file_event f (Fopen path ok) = (if ok then Some [] else f)"
| "file_event f (Fprintf text) = map_option (\<lambda>content. content @ text) f"
| "file_event f ev = f"

definition json_file :: "event list \<Rightarrow> string option" where
  "json_file tr = foldl file_event None tr"

text \<open>The store handle when the run ends.\<close>

datatype handle_state = Not_opened | Opened | Closed

fun handle_event :: "handle_state \<Rightarrow> event \<Rightarrow> handle_state" where
  "handle_event h (Gdbm_open path bs fl md ok) = (if ok then Opened else h)"
| "handle_event h Gdbm_close = Closed"
| "handle_event h ev = h"

definition handle_at_return :: "event list \<Rightarrow> handle_state" where
  "handle_at_return tr = foldl handle_event Not_opened tr"

subsection \<open>The JSON document of the specification\<close>

text \<open>
  The document the specification describes: the object with the generator name, the time,
  \<^verbatim>\<open>data_records\<close> and the array \<^verbatim>\<open>data\<close> of key and value pairs separated by
  commas, then a newline. The layout of the fields is the program's (\<open>json_header\<close>).
\<close>

definition json_pair :: "string \<times> string \<Rightarrow> string" where
  "json_pair kv = ''[\"'' @ fst kv @ ''\",\"'' @ snd kv @ ''\"]''"

fun json_array_body :: "(string \<times> string) list \<Rightarrow> string" where
  "json_array_body [] = []"
| "json_array_body [kv] = json_pair kv"
| "json_array_body (kv # kvs) = json_pair kv @ '','' @ json_array_body kvs"

definition json_document :: "64 word \<Rightarrow> nat \<Rightarrow> (string \<times> string) list \<Rightarrow> string" where
  "json_document t n d = json_header t n @ json_array_body d @ '']}\<newline>''"

text \<open>The data set the specification gives for the basic plan.\<close>

definition basic_data :: "(string \<times> string) list" where
  "basic_data = map (\<lambda>i. (''key '' @ dec i, ''value '' @ dec i)) [0..<10001]"

subsection \<open>Sample environments\<close>

text \<open>A world in which every call succeeds, and variations of it.\<close>

definition env_ok :: env where
  "env_ok = \<lparr>GDBM_NEWDB = 3, GDBM_NUMSYNC = 0x2000, GDBM_REPLACE = 1,
             gdbm_open = (\<lambda>path flags. True), gdbm_count = (0, 0),
             gdbm_store = (\<lambda>n k v. 0), fopen = (\<lambda>path. True), time = 1700000000\<rparr>"

definition env_store_fails :: env where
  "env_store_fails = env_ok\<lparr>gdbm_store := (\<lambda>n k v. if n = 2 then - 1 else 0)\<rparr>"

definition env_count_5 :: env where
  "env_count_5 = env_ok\<lparr>gdbm_count := (0, 5)\<rparr>"

definition env_later :: env where
  "env_later = env_ok\<lparr>time := 1700003600\<rparr>"

subsection \<open>Names for the events and traces of the plans\<close>

text \<open>
  Shorthands used to state what a run did: the flags passed to \<^verbatim>\<open>gdbm_open\<close>, the
  event of a successful store call, the two events of a failed one, a record as a pair, and
  the whole trace of a successful run of either plan.
\<close>

text \<open>Record \<open>i\<close> with its two texts in full.\<close>

definition record_text :: "nat \<Rightarrow> kv_pair" where
  "record_text i = \<lparr>key = ''key '' @ dec i, value_str = ''value '' @ dec i\<rparr>"

definition stored :: "env \<Rightarrow> kv_pair \<Rightarrow> event" where
  "stored e p = Gdbm_store (key p) (value_str p) (GDBM_REPLACE e) 0"

definition store_failure :: "env \<Rightarrow> kv_pair \<Rightarrow> int \<Rightarrow> event list" where
  "store_failure e p rc =
     [Gdbm_store (key p) (value_str p) (GDBM_REPLACE e) rc,
      Stderr (''gdbm_store failed, rc '' @ fmt_d rc @ '', key '' @ key p @ ''\<newline>'')]"

definition open_flags :: "env \<Rightarrow> bool \<Rightarrow> 32 word" where
  "open_flags e ns = GDBM_NEWDB e OR (if ns then GDBM_NUMSYNC e else 0)"

definition kv_of :: "kv_pair \<Rightarrow> string \<times> string" where
  "kv_of p = (key p, value_str p)"

definition basic_success_trace :: "bool \<Rightarrow> string \<Rightarrow> string \<Rightarrow> env \<Rightarrow> event list" where
  "basic_success_trace ns db js e =
     Gdbm_open db 512 (open_flags e ns) 438 True #
     map (stored e) (map record_text [0..<N_REC]) @
     [Gdbm_close, Fopen js True, Time (time e), Fprintf (json_header (time e) N_REC)] @
     json_loop True (map record_text [0..<N_REC]) @
     [Fprintf '']}\<newline>'', Fclose]"

definition empty_success_trace :: "bool \<Rightarrow> string \<Rightarrow> string \<Rightarrow> env \<Rightarrow> event list" where
  "empty_success_trace ns db js e =
     [Gdbm_open db 512 (open_flags e ns) 438 True, Gdbm_count 0 0, Gdbm_close,
      Fopen js True, Time (time e), Fprintf (json_header (time e) 0),
      Fprintf '']}\<newline>'', Fclose]"

subsection \<open>Decimal text determines the number\<close>

definition digit_val :: "char \<Rightarrow> nat" where
  "digit_val c = of_char c - 48"

fun dec_val :: "string \<Rightarrow> nat" where
  "dec_val [] = 0"
| "dec_val (c # cs) = digit_val c * 10 ^ length cs + dec_val cs"

lemma digit_val_digit_char: "d < 10 \<Longrightarrow> digit_val (digit_char d) = d"
proof -
  assume "d < 10"
  then have "d \<in> {0, 1, 2, 3, 4, 5, 6, 7, 8, 9}" by auto
  then show ?thesis by (auto simp: digit_val_def digit_char_def)
qed

lemma dec_val_snoc: "dec_val (cs @ [c]) = 10 * dec_val cs + digit_val c"
  by (induction cs) (auto simp: algebra_simps)

lemma dec_val_dec: "dec_val (dec n) = n"
proof (induction n rule: dec.induct)
  case (1 n)
  show ?case
  proof (cases "n < 10")
    case True
    then show ?thesis by (simp add: dec.simps [of n] digit_val_digit_char)
  next
    case False
    with 1 show ?thesis
      by (simp add: dec.simps [of n] dec_val_snoc digit_val_digit_char)
  qed
qed

lemma dec_inj: "dec a = dec b \<Longrightarrow> a = b"
  by (metis dec_val_dec)

lemma length_dec: "n < 10 ^ k \<Longrightarrow> 0 < k \<Longrightarrow> length (dec n) \<le> k"
proof (induction n arbitrary: k rule: dec.induct)
  case (1 n)
  show ?case
  proof (cases "n < 10")
    case True
    with 1(3) show ?thesis by (simp add: dec.simps [of n])
  next
    case False
    from 1(3) obtain j where k: "k = Suc j" by (cases k) auto
    have j: "0 < j"
    proof (rule ccontr)
      assume "\<not> 0 < j"
      with k 1(2) False show False by simp
    qed
    from 1(2) k have "n < 10 * 10 ^ j" by simp
    then have "n div 10 < 10 ^ j" by (simp add: less_mult_imp_div_less mult.commute)
    with 1(1) [OF False _ j] have "length (dec (n div 10)) \<le> j" by simp
    with False k show ?thesis by (simp add: dec.simps [of n])
  qed
qed

lemma length_dec_rec: "i < N_REC \<Longrightarrow> length (dec i) \<le> 5"
  by (rule length_dec) (simp_all add: N_REC_def)

subsection \<open>The generator loop in closed form\<close>

lemma snprintf_whole: "length text < n \<Longrightarrow> snprintf n text = text"
  by (simp add: snprintf_def)

lemma snprintf_key: "i < N_REC \<Longrightarrow> snprintf 128 (''key '' @ dec i) = ''key '' @ dec i"
  using length_dec_rec [of i] by (intro snprintf_whole) simp

lemma snprintf_value: "i < N_REC \<Longrightarrow> snprintf 128 (''value '' @ dec i) = ''value '' @ dec i"
  using length_dec_rec [of i] by (intro snprintf_whole) simp

lemma gen_loop_eq:
  "i \<le> N_REC \<Longrightarrow> gen_loop i data = data @ map record_text [i..<N_REC]"
proof (induction i data rule: gen_loop.induct)
  case (1 i data)
  show ?case
  proof (cases "i < N_REC")
    case True
    have eq: "\<lparr>key = snprintf 128 (''key '' @ dec i),
               value_str = snprintf 128 (''value '' @ dec i)\<rparr> = record_text i"
      by (simp only: record_text_def snprintf_key [OF True] snprintf_value [OF True])
    have "gen_loop i data = gen_loop (i + 1) (data @ [record_text i])"
      by (subst gen_loop.simps) (simp only: eq True if_True)
    also have "\<dots> = (data @ [record_text i]) @ map record_text [i + 1..<N_REC]"
    proof -
      from True have "i + 1 \<le> N_REC" by simp
      from 1(1) [OF True this] show ?thesis by (simp only: eq)
    qed
    also have "\<dots> = data @ map record_text [i..<N_REC]"
      using True by (simp add: upt_conv_Cons)
    finally show ?thesis .
  next
    case False
    with 1(2) show ?thesis by (subst gen_loop.simps) simp
  qed
qed

lemma gen_loop_0: "gen_loop 0 [] = map record_text [0..<N_REC]"
  by (simp add: gen_loop_eq)

lemma record_text_inj: "key (record_text i) = key (record_text j) \<Longrightarrow> i = j"
  by (simp add: record_text_def dec_inj)

subsection \<open>The runs of the two plans\<close>

lemma store_loop_all_ok:
  "(\<And>j. j < length ps \<Longrightarrow> gdbm_store e (n + j) (key (ps ! j)) (value_str (ps ! j)) = 0) \<Longrightarrow>
   store_loop e n ps = (map (stored e) ps, True)"
proof (induction ps arbitrary: n)
  case Nil
  show ?case by simp
next
  case (Cons p ps)
  from Cons.prems [of 0] have rc: "gdbm_store e n (key p) (value_str p) = 0" by simp
  have "store_loop e (n + 1) ps = (map (stored e) ps, True)"
  proof (rule Cons.IH)
    fix j assume "j < length ps"
    with Cons.prems [of "Suc j"]
    show "gdbm_store e (n + 1 + j) (key (ps ! j)) (value_str (ps ! j)) = 0" by simp
  qed
  with rc show ?case by (simp add: stored_def)
qed

lemma store_loop_fails_at:
  "k < length ps \<Longrightarrow>
   (\<And>j. j < k \<Longrightarrow> gdbm_store e (n + j) (key (ps ! j)) (value_str (ps ! j)) = 0) \<Longrightarrow>
   gdbm_store e (n + k) (key (ps ! k)) (value_str (ps ! k)) = rc \<Longrightarrow> rc \<noteq> 0 \<Longrightarrow>
   store_loop e n ps = (map (stored e) (take k ps) @ store_failure e (ps ! k) rc, False)"
proof (induction ps arbitrary: n k)
  case Nil
  then show ?case by simp
next
  case (Cons p ps)
  show ?case
  proof (cases k)
    case 0
    with Cons.prems(3,4) show ?thesis by (simp add: store_failure_def)
  next
    case (Suc k')
    from Cons.prems(2) [of 0] Suc have rc0: "gdbm_store e n (key p) (value_str p) = 0" by simp
    have "store_loop e (n + 1) ps =
            (map (stored e) (take k' ps) @ store_failure e (ps ! k') rc, False)"
    proof (rule Cons.IH)
      show "k' < length ps" using Cons.prems(1) Suc by simp
      show "gdbm_store e (n + 1 + j) (key (ps ! j)) (value_str (ps ! j)) = 0" if "j < k'" for j
        using Cons.prems(2) [of "Suc j"] that Suc by simp
      show "gdbm_store e (n + 1 + k') (key (ps ! k')) (value_str (ps ! k')) = rc"
        using Cons.prems(3) Suc by simp
      show "rc \<noteq> 0" by (rule Cons.prems(4))
    qed
    with rc0 Suc show ?thesis by (simp add: stored_def)
  qed
qed

lemma store_loop_done:
  "snd (store_loop e n ps) \<Longrightarrow> j < length ps \<Longrightarrow>
   gdbm_store e (n + j) (key (ps ! j)) (value_str (ps ! j)) = 0"
proof (induction ps arbitrary: n j)
  case Nil
  then show ?case by simp
next
  case (Cons p ps)
  from Cons.prems(1) have rc: "gdbm_store e n (key p) (value_str p) = 0"
    by (auto simp: Let_def split: if_splits)
  with Cons.prems(1) have rest: "snd (store_loop e (n + 1) ps)"
    by (auto simp: Let_def split: prod.splits)
  show ?case
  proof (cases j)
    case 0
    with rc show ?thesis by simp
  next
    case (Suc j')
    with Cons.prems(2) have "j' < length ps" by simp
    from Cons.IH [OF rest this] Suc show ?thesis by simp
  qed
qed

lemma store_writes_append: "store_writes (a @ b) = store_writes a @ store_writes b"
  by (induction a rule: store_writes.induct) auto

lemma store_writes_stored: "store_writes (map (stored e) ps) = map kv_of ps"
  by (induction ps) (auto simp: stored_def kv_of_def)

lemma store_writes_json_loop: "store_writes (json_loop first ps) = []"
  by (induction ps arbitrary: first) auto

lemma store_writes_store_failure: "rc \<noteq> 0 \<Longrightarrow> store_writes (store_failure e p rc) = []"
  by (simp add: store_failure_def)

lemma file_event_stored: "foldl file_event f (map (stored e) ps) = f"
  by (induction ps) (auto simp: stored_def)

lemma file_event_store_failure: "foldl file_event f (store_failure e p rc) = f"
  by (simp add: store_failure_def)

lemma file_event_json_loop_rest:
  "foldl file_event (Some c) (json_loop False ps) =
     Some (c @ concat (map (\<lambda>p. '','' @ json_pair (kv_of p)) ps))"
  by (induction ps arbitrary: c) (auto simp: json_pair_def kv_of_def)

lemma json_array_body_Cons:
  "json_array_body (kv # kvs) = json_pair kv @ concat (map (\<lambda>kv. '','' @ json_pair kv) kvs)"
  by (induction kvs arbitrary: kv) auto

lemma file_event_json_loop:
  "foldl file_event (Some c) (json_loop True ps) = Some (c @ json_array_body (map kv_of ps))"
proof (cases ps)
  case Nil
  then show ?thesis by simp
next
  case (Cons p ps')
  then show ?thesis
    by (simp add: json_array_body_Cons file_event_json_loop_rest comp_def)
       (simp add: json_pair_def kv_of_def)
qed

lemma handle_event_stored: "foldl handle_event h (map (stored e) ps) = h"
  by (induction ps) (auto simp: stored_def)

lemma handle_event_json_loop: "foldl handle_event h (json_loop first ps) = h"
  by (induction ps arbitrary: first) auto

lemma kv_of_record_text: "kv_of (record_text i) = (''key '' @ dec i, ''value '' @ dec i)"
  by (simp add: kv_of_def record_text_def)

lemma kv_of_records: "map kv_of (map record_text [0..<N_REC]) = basic_data"
  by (simp add: basic_data_def N_REC_def kv_of_record_text comp_def)

lemma length_basic_data: "length basic_data = 10001"
  by (simp add: basic_data_def)

lemma store_loop_records_ok:
  assumes "\<And>j. j < N_REC \<Longrightarrow> gdbm_store e j (''key '' @ dec j) (''value '' @ dec j) = 0"
  shows "store_loop e 0 (map record_text [0..<N_REC]) =
           (map (stored e) (map record_text [0..<N_REC]), True)"
proof (rule store_loop_all_ok)
  fix j assume "j < length (map record_text [0..<N_REC])"
  then have "j < N_REC" by simp
  with assms [of j]
  show "gdbm_store e (0 + j) (key (map record_text [0..<N_REC] ! j))
          (value_str (map record_text [0..<N_REC] ! j)) = 0"
    by (simp add: record_text_def)
qed

lemma store_loop_records_fail:
  assumes k: "k < N_REC"
    and before: "\<And>j. j < k \<Longrightarrow> gdbm_store e j (''key '' @ dec j) (''value '' @ dec j) = 0"
    and rc: "gdbm_store e k (''key '' @ dec k) (''value '' @ dec k) = rc" "rc \<noteq> 0"
  shows "store_loop e 0 (map record_text [0..<N_REC]) =
           (map (stored e) (map record_text [0..<k]) @ store_failure e (record_text k) rc,
            False)"
proof -
  let ?ps = "map record_text [0..<N_REC]"
  have "store_loop e 0 ?ps = (map (stored e) (take k ?ps) @ store_failure e (?ps ! k) rc, False)"
  proof (rule store_loop_fails_at)
    show "k < length ?ps" using k by simp
    show "gdbm_store e (0 + j) (key (?ps ! j)) (value_str (?ps ! j)) = 0" if "j < k" for j
      using before [OF that] that k by (simp add: record_text_def)
    show "gdbm_store e (0 + k) (key (?ps ! k)) (value_str (?ps ! k)) = rc"
      using rc(1) k by (simp add: record_text_def)
    show "rc \<noteq> 0" by (rule rc(2))
  qed
  moreover have "take k ?ps = map record_text [0..<k]"
    using k by (simp add: take_map take_upt)
  moreover have "?ps ! k = record_text k"
    using k by simp
  ultimately show ?thesis by simp
qed

lemma store_loop_records_done:
  assumes "snd (store_loop e 0 (map record_text [0..<N_REC]))" and "j < N_REC"
  shows "gdbm_store e j (''key '' @ dec j) (''value '' @ dec j) = 0"
  using store_loop_done [OF assms(1), of j] assms(2) by (simp add: record_text_def)

lemma gen_plan_basic_open_fails:
  assumes "\<not> gdbm_open e db (open_flags e ns)"
  shows "gen_plan_basic ns db js e =
           (Exit 1, [Gdbm_open db 512 (open_flags e ns) 438 False,
                     Stderr ''gdbm_open failed\<newline>''])"
  using assms by (simp add: gen_plan_basic_def open_flags_def Let_def)

lemma gen_plan_basic_store_fails:
  assumes "gdbm_open e db (open_flags e ns)"
    and "k < N_REC"
    and "\<And>j. j < k \<Longrightarrow> gdbm_store e j (''key '' @ dec j) (''value '' @ dec j) = 0"
    and "gdbm_store e k (''key '' @ dec k) (''value '' @ dec k) = rc" and "rc \<noteq> 0"
  shows "gen_plan_basic ns db js e =
           (Exit 1, Gdbm_open db 512 (open_flags e ns) 438 True #
                    map (stored e) (map record_text [0..<k]) @
                    store_failure e (record_text k) rc)"
  using assms(1) store_loop_records_fail [OF assms(2-5)]
  by (simp add: gen_plan_basic_def open_flags_def Let_def gen_loop_0)

lemma gen_plan_basic_fopen_fails:
  assumes "gdbm_open e db (open_flags e ns)"
    and "\<And>j. j < N_REC \<Longrightarrow> gdbm_store e j (''key '' @ dec j) (''value '' @ dec j) = 0"
    and "\<not> fopen e js"
  shows "gen_plan_basic ns db js e =
           (Exit 1, Gdbm_open db 512 (open_flags e ns) 438 True #
                    map (stored e) (map record_text [0..<N_REC]) @
                    [Gdbm_close, Fopen js False, Stderr ''fopen failed\<newline>''])"
  using assms(1,3) store_loop_records_ok [OF assms(2)]
  by (simp add: gen_plan_basic_def open_flags_def Let_def gen_loop_0)

lemma gen_plan_basic_success:
  assumes "gdbm_open e db (open_flags e ns)"
    and "\<And>j. j < N_REC \<Longrightarrow> gdbm_store e j (''key '' @ dec j) (''value '' @ dec j) = 0"
    and "fopen e js"
  shows "gen_plan_basic ns db js e = (Exit 0, basic_success_trace ns db js e)"
  using assms(1,3) store_loop_records_ok [OF assms(2)]
  by (simp add: gen_plan_basic_def open_flags_def Let_def gen_loop_0 basic_success_trace_def)

lemma gen_plan_basic_exit_0:
  assumes "gen_plan_basic ns db js e = (Exit 0, tr)"
  shows "gdbm_open e db (open_flags e ns)"
    and "\<And>j. j < N_REC \<Longrightarrow> gdbm_store e j (''key '' @ dec j) (''value '' @ dec j) = 0"
    and "fopen e js"
    and "tr = basic_success_trace ns db js e"
proof -
  show o: "gdbm_open e db (open_flags e ns)"
    using assms by (auto simp: gen_plan_basic_def open_flags_def Let_def split: if_splits)
  have d: "snd (store_loop e 0 (map record_text [0..<N_REC]))"
    using assms o
    by (auto simp: gen_plan_basic_def open_flags_def Let_def gen_loop_0
             split: if_splits prod.splits)
  show s: "\<And>j. j < N_REC \<Longrightarrow> gdbm_store e j (''key '' @ dec j) (''value '' @ dec j) = 0"
    by (rule store_loop_records_done [OF d])
  show f: "fopen e js"
    using assms o
    by (auto simp: gen_plan_basic_def open_flags_def Let_def gen_loop_0
             split: if_splits prod.splits)
  from gen_plan_basic_success [OF o s f] assms
  show "tr = basic_success_trace ns db js e" by simp
qed

lemma store_writes_basic_success:
  "store_writes (basic_success_trace ns db js e) = basic_data"
  by (simp add: basic_success_trace_def store_writes_append store_writes_stored
        store_writes_json_loop kv_of_records del: map_map)

lemma json_file_basic_success:
  "json_file (basic_success_trace ns db js e) =
     Some (json_document (time e) 10001 basic_data)"
proof -
  have "json_file (basic_success_trace ns db js e) =
          Some (json_document (time e) N_REC basic_data)"
    by (simp add: basic_success_trace_def json_file_def file_event_stored
          file_event_json_loop json_document_def kv_of_records del: map_map)
  then show ?thesis by (simp add: N_REC_def)
qed

lemma handle_basic_success: "handle_at_return (basic_success_trace ns db js e) = Closed"
  by (simp add: basic_success_trace_def handle_at_return_def handle_event_stored
        handle_event_json_loop del: map_map)

lemma gen_plan_empty_open_fails:
  assumes "\<not> gdbm_open e db (open_flags e ns)"
  shows "gen_plan_empty ns db js e =
           (Exit 1, [Gdbm_open db 512 (open_flags e ns) 438 False,
                     Stderr ''gdbm_open failed\<newline>''])"
  using assms by (simp add: gen_plan_empty_def open_flags_def Let_def)

lemma gen_plan_empty_count_fails:
  assumes "gdbm_open e db (open_flags e ns)" and "gdbm_count e = (rc, c)" and "rc \<noteq> 0"
  shows "gen_plan_empty ns db js e =
           (Exit 1, [Gdbm_open db 512 (open_flags e ns) 438 True, Gdbm_count rc c,
                     Stderr ''gdbm_count failed\<newline>''])"
  using assms by (simp add: gen_plan_empty_def open_flags_def Let_def)

lemma gen_plan_empty_assert_fails:
  assumes "gdbm_open e db (open_flags e ns)" and "gdbm_count e = (0, c)" and "c \<noteq> 0"
  shows "gen_plan_empty ns db js e =
           (Abort, [Gdbm_open db 512 (open_flags e ns) 438 True, Gdbm_count 0 c,
                    Assert_fail ''count == 0''])"
  using assms by (simp add: gen_plan_empty_def open_flags_def Let_def)

lemma gen_plan_empty_fopen_fails:
  assumes "gdbm_open e db (open_flags e ns)" and "gdbm_count e = (0, 0)" and "\<not> fopen e js"
  shows "gen_plan_empty ns db js e =
           (Exit 1, [Gdbm_open db 512 (open_flags e ns) 438 True, Gdbm_count 0 0,
                     Gdbm_close, Fopen js False, Stderr ''fopen failed\<newline>''])"
  using assms by (simp add: gen_plan_empty_def open_flags_def Let_def)

lemma gen_plan_empty_success:
  assumes "gdbm_open e db (open_flags e ns)" and "gdbm_count e = (0, 0)" and "fopen e js"
  shows "gen_plan_empty ns db js e = (Exit 0, empty_success_trace ns db js e)"
  using assms by (simp add: gen_plan_empty_def open_flags_def Let_def empty_success_trace_def)

lemma gen_plan_empty_exit_0:
  assumes "gen_plan_empty ns db js e = (Exit 0, tr)"
  shows "gdbm_open e db (open_flags e ns)" and "gdbm_count e = (0, 0)" and "fopen e js"
    and "tr = empty_success_trace ns db js e"
proof -
  show o: "gdbm_open e db (open_flags e ns)"
    using assms by (auto simp: gen_plan_empty_def open_flags_def Let_def split: if_splits)
  show c: "gdbm_count e = (0, 0)"
    using assms o
    by (cases "gdbm_count e")
       (auto simp: gen_plan_empty_def open_flags_def Let_def split: if_splits)
  show f: "fopen e js"
    using assms o c
    by (auto simp: gen_plan_empty_def open_flags_def Let_def split: if_splits)
  from gen_plan_empty_success [OF o c f] assms
  show "tr = empty_success_trace ns db js e" by simp
qed

lemma json_file_empty_success:
  "json_file (empty_success_trace ns db js e) = Some (json_document (time e) 0 [])"
  by (simp add: empty_success_trace_def json_file_def json_document_def)

lemma store_writes_usage: "store_writes (usage p) = []"
  by (simp add: usage_def)

lemma json_file_usage: "json_file (usage p) = None"
  by (simp add: usage_def json_file_def)

text \<open>A run that did not end with exit status 0 left no JSON file.\<close>

lemma file_event_store_loop: "foldl file_event f (fst (store_loop e n ps)) = f"
proof (induction ps arbitrary: n f)
  case Nil
  show ?case by simp
next
  case (Cons p ps)
  obtain tr d where sl: "store_loop e (n + 1) ps = (tr, d)"
    by (cases "store_loop e (n + 1) ps")
  with Cons.IH [of f "n + 1"] have "foldl file_event f tr = f" by simp
  with sl show ?case by (simp add: Let_def)
qed

lemma json_file_basic_cases:
  "gen_plan_basic ns db js e = (out, tr) \<Longrightarrow>
   (out = Exit 0 \<and> tr = basic_success_trace ns db js e) \<or> (out = Exit 1 \<and> json_file tr = None)"
proof -
  assume r: "gen_plan_basic ns db js e = (out, tr)"
  show ?thesis
  proof (cases "out = Exit 0")
    case True
    with r gen_plan_basic_exit_0(4) [of ns db js e tr] show ?thesis by simp
  next
    case False
    have "\<And>a b. store_loop e 0 (gen_loop 0 []) = (a, b) \<Longrightarrow> foldl file_event None a = None"
      using file_event_store_loop [of None e 0 "gen_loop 0 []"] by simp
    with r False show ?thesis
      by (auto simp: gen_plan_basic_def Let_def json_file_def split: if_splits prod.splits)
  qed
qed

lemma json_file_empty_cases:
  "gen_plan_empty ns db js e = (out, tr) \<Longrightarrow>
   (out = Exit 0 \<and> tr = empty_success_trace ns db js e) \<or>
   (out \<noteq> Exit 0 \<and> json_file tr = None \<and> store_writes tr = [])"
proof -
  assume r: "gen_plan_empty ns db js e = (out, tr)"
  show ?thesis
  proof (cases "out = Exit 0")
    case True
    with r gen_plan_empty_exit_0(4) [of ns db js e tr] show ?thesis by simp
  next
    case False
    with r show ?thesis
      by (auto simp: gen_plan_empty_def Let_def json_file_def split: if_splits prod.splits)
  qed
qed

lemma dec_small: "dec 0 = ''0''" "dec 1 = ''1''" "dec 2 = ''2''" "dec 10000 = ''10000''"
  by (simp_all add: dec.simps digit_char_def)

lemma env_ok_run_basic:
  "gen_plan_basic ns db js env_ok = (Exit 0, basic_success_trace ns db js env_ok)"
  by (rule gen_plan_basic_success) (simp_all add: env_ok_def)

lemma env_later_run_basic:
  "gen_plan_basic ns db js env_later = (Exit 0, basic_success_trace ns db js env_later)"
  by (rule gen_plan_basic_success) (simp_all add: env_ok_def env_later_def)

lemma env_ok_run_empty:
  "gen_plan_empty ns db js env_ok = (Exit 0, empty_success_trace ns db js env_ok)"
  by (rule gen_plan_empty_success) (simp_all add: env_ok_def)

lemma nth_basic_data: "i < 10001 \<Longrightarrow> basic_data ! i = (''key '' @ dec i, ''value '' @ dec i)"
  by (simp add: basic_data_def)

lemma main_cases:
  assumes "main argv0 opts e = (out, tr)"
  shows "(out = Exit 1 \<and> tr = usage argv0) \<or>
         (\<exists>p. out = Exit 1 \<and> tr = [Stderr (''Unknown test plan '' @ p @ ''\<newline>'')]) \<or>
         (\<exists>ns db js. gen_plan_basic ns db js e = (out, tr)) \<or>
         (\<exists>ns db js. gen_plan_empty ns db js e = (out, tr))"
  using assms by (auto simp: main_def split: option.splits if_splits)

lemma store_writes_empty_success: "store_writes (empty_success_trace ns db js e) = []"
  by (simp add: empty_success_trace_def)

lemma env_ok_main_empty:
  "main ''testgen'' [Opt_o ''t.db'', Opt_j ''t.json'', Opt_p ''empty''] env_ok =
     (Exit 0, empty_success_trace False ''t.db'' ''t.json'' env_ok)"
  by (simp add: main_def env_ok_run_empty)

lemma gen_plan_basic_hd:
  "hd (snd (gen_plan_basic ns db js e)) =
     Gdbm_open db 512 (open_flags e ns) 438 (gdbm_open e db (open_flags e ns))"
  by (simp add: gen_plan_basic_def open_flags_def Let_def split: prod.splits)

lemma gen_plan_empty_hd:
  "hd (snd (gen_plan_empty ns db js e)) =
     Gdbm_open db 512 (open_flags e ns) 438 (gdbm_open e db (open_flags e ns))"
  by (simp add: gen_plan_empty_def open_flags_def Let_def split: prod.splits)

lemma gen_plan_basic_numsync:
  assumes "gdbm_open e db (open_flags e True) = gdbm_open e db (open_flags e False)"
  shows "fst (gen_plan_basic True db js e) = fst (gen_plan_basic False db js e) \<and>
         tl (snd (gen_plan_basic True db js e)) = tl (snd (gen_plan_basic False db js e))"
  using assms
  by (cases "gdbm_open e db (open_flags e False)")
     (simp_all add: gen_plan_basic_def open_flags_def Let_def split: prod.splits)

lemma gen_plan_empty_numsync:
  assumes "gdbm_open e db (open_flags e True) = gdbm_open e db (open_flags e False)"
  shows "fst (gen_plan_empty True db js e) = fst (gen_plan_empty False db js e) \<and>
         tl (snd (gen_plan_empty True db js e)) = tl (snd (gen_plan_empty False db js e))"
  using assms
  by (cases "gdbm_open e db (open_flags e False)")
     (simp_all add: gen_plan_empty_def open_flags_def Let_def split: prod.splits)

lemma dec_Suc_0: "dec (Suc 0) = ''1''"
  by (simp add: dec.simps digit_char_def)

lemma stored_records:
  "map (stored e) (map record_text [0..<k]) =
     map (\<lambda>j. Gdbm_store (''key '' @ dec j) (''value '' @ dec j) (GDBM_REPLACE e) 0) [0..<k]"
  by (simp add: stored_def record_text_def)

lemma store_failure_record:
  "store_failure e (record_text k) rc =
     [Gdbm_store (''key '' @ dec k) (''value '' @ dec k) (GDBM_REPLACE e) rc,
      Stderr (''gdbm_store failed, rc '' @ fmt_d rc @ '', key key '' @ dec k @ ''\<newline>'')]"
  by (simp add: store_failure_def record_text_def)

lemma kv_of_records_upto:
  "map kv_of (map record_text [0..<k]) = map (\<lambda>j. (''key '' @ dec j, ''value '' @ dec j)) [0..<k]"
  by (simp add: kv_of_record_text)

lemma handle_usage: "handle_at_return (usage p) = Not_opened"
  by (simp add: usage_def handle_at_return_def)

lemma handle_event_store_loop: "foldl handle_event h (fst (store_loop e n ps)) = h"
proof (induction ps arbitrary: n h)
  case Nil
  show ?case by simp
next
  case (Cons p ps)
  obtain tr d where sl: "store_loop e (n + 1) ps = (tr, d)"
    by (cases "store_loop e (n + 1) ps")
  with Cons.IH [of h "n + 1"] have "foldl handle_event h tr = h" by simp
  with sl show ?case by (simp add: Let_def)
qed

lemma gen_plan_basic_not_done:
  assumes "gdbm_open e db (open_flags e ns)"
    and "\<not> snd (store_loop e 0 (map record_text [0..<N_REC]))"
  shows "gen_plan_basic ns db js e =
           (Exit 1, Gdbm_open db 512 (open_flags e ns) 438 True #
                    fst (store_loop e 0 (map record_text [0..<N_REC])))"
proof -
  obtain tr d where sl: "store_loop e 0 (map record_text [0..<N_REC]) = (tr, d)"
    by (cases "store_loop e 0 (map record_text [0..<N_REC])")
  with assms(2) have "\<not> d" by simp
  with assms(1) sl show ?thesis
    by (simp add: gen_plan_basic_def open_flags_def Let_def gen_loop_0)
qed

lemma handle_basic_fopen_fails:
  "handle_at_return
     (Gdbm_open db 512 fl 438 True # map (stored e) ps @
      [Gdbm_close, Fopen js False, Stderr ''fopen failed\<newline>'']) = Closed"
  by (simp add: handle_at_return_def handle_event_stored)

lemma dec_time_env_ok: "dec (unat (time env_ok)) = ''1700000000''"
  by (simp add: env_ok_def dec.simps digit_char_def)

lemma json_document_text:
  "json_document t n d =
     ''{  \"generated_by\":\"testgen\",  \"generated_time\":\"'' @ dec (unat t) @
     ''\",  \"data_records\": '' @ dec n @ '',  \"data\": ['' @ json_array_body d @
     '']}\<newline>''"
  by (simp add: json_document_def json_header_def)

lemma env_ok_main_basic:
  "main ''testgen'' [Opt_o ''t.db'', Opt_j ''t.json''] env_ok =
     (Exit 0, basic_success_trace False ''t.db'' ''t.json'' env_ok)"
  by (simp add: main_def env_ok_run_basic)

lemma dec_10001: "dec 10001 = ''10001''"
  by (simp add: dec.simps digit_char_def)

section \<open>The claims\<close>

text \<open>
  C1. The basic plan generates exactly 10001 records, record \<open>i\<close> being the pair of the
  texts \<^verbatim>\<open>key i\<close> and \<^verbatim>\<open>value i\<close>, in increasing order of \<open>i\<close>. In a successful
  run the store calls are made in this order, and the data array of the JSON file lists the
  same pairs in the same order.
\<close>

theorem basic_plan_records_in_order:
  "length (gen_loop 0 []) = 10001 \<and>
   (\<forall>i<10001. gen_loop 0 [] ! i =
        \<lparr>key = ''key '' @ dec i, value_str = ''value '' @ dec i\<rparr>) \<and>
   (\<forall>ns db js e tr. gen_plan_basic ns db js e = (Exit 0, tr) \<longrightarrow>
        length (store_writes tr) = 10001 \<and>
        (\<forall>i<10001. store_writes tr ! i = (''key '' @ dec i, ''value '' @ dec i)) \<and>
        json_file tr = Some (json_document (time e) 10001 (store_writes tr)))"
proof (intro conjI allI impI)
  show "length (gen_loop 0 []) = 10001"
    by (simp add: gen_loop_0 N_REC_def)
next
  fix i :: nat assume "i < 10001"
  then show "gen_loop 0 [] ! i = \<lparr>key = ''key '' @ dec i, value_str = ''value '' @ dec i\<rparr>"
    by (simp add: gen_loop_0 N_REC_def record_text_def)
next
  fix ns db js e tr
  assume "gen_plan_basic ns db js e = (Exit 0, tr)"
  then have tr: "tr = basic_success_trace ns db js e"
    by (rule gen_plan_basic_exit_0(4))
  then have sw: "store_writes tr = basic_data"
    by (simp add: store_writes_basic_success)
  show "length (store_writes tr) = 10001"
    by (simp add: sw length_basic_data)
  show "json_file tr = Some (json_document (time e) 10001 (store_writes tr))"
    unfolding sw unfolding tr by (rule json_file_basic_success)
  fix i :: nat assume "i < 10001"
  then show "store_writes tr ! i = (''key '' @ dec i, ''value '' @ dec i)"
    by (simp add: sw nth_basic_data)
qed

theorem basic_plan_records_in_order_witness:
  "gen_loop 0 [] ! 10000 = \<lparr>key = ''key 10000'', value_str = ''value 10000''\<rparr> \<and>
   fst (gen_plan_basic False ''t.db'' ''t.json'' env_ok) = Exit 0 \<and>
   store_writes (snd (gen_plan_basic False ''t.db'' ''t.json'' env_ok)) ! 10000 =
     (''key 10000'', ''value 10000'') \<and>
   json_file (snd (gen_plan_basic False ''t.db'' ''t.json'' env_ok)) =
     Some (json_document 1700000000 10001
             (store_writes (snd (gen_plan_basic False ''t.db'' ''t.json'' env_ok))))"
proof -
  let ?tr = "basic_success_trace False ''t.db'' ''t.json'' env_ok"
  have run: "gen_plan_basic False ''t.db'' ''t.json'' env_ok = (Exit 0, ?tr)"
    by (rule env_ok_run_basic)
  have t: "time env_ok = 1700000000" by (simp add: env_ok_def)
  have i: "(10000::nat) < 10001" by simp
  from basic_plan_records_in_order
  have a: "gen_loop 0 [] ! 10000 =
             \<lparr>key = ''key '' @ dec 10000, value_str = ''value '' @ dec 10000\<rparr>"
    and b: "store_writes ?tr ! 10000 = (''key '' @ dec 10000, ''value '' @ dec 10000)"
    and c: "json_file ?tr = Some (json_document (time env_ok) 10001 (store_writes ?tr))"
    using run i by blast+
  from a b c show ?thesis by (simp add: run t dec_small)
qed

text \<open>
  C2. Whenever a run of the tool leaves a JSON file, the run was successful and the file
  is, byte for byte, the object whose \<^verbatim>\<open>data_records\<close> field is the decimal number of
  successful store calls of the run and whose \<^verbatim>\<open>data\<close> array lists exactly these calls
  in order, so \<^verbatim>\<open>data_records\<close> is the length of the array. For the empty plan no
  store call is made, \<^verbatim>\<open>data_records\<close> is 0 and the array is empty.
\<close>

theorem data_records_equals_data_length_and_store_writes:
  "(\<forall>argv0 opts e out tr content.
      main argv0 opts e = (out, tr) \<and> json_file tr = Some content \<longrightarrow>
        out = Exit 0 \<and>
        content =
          ''{  \"generated_by\":\"testgen\",  \"generated_time\":\"'' @ dec (unat (time e)) @
          ''\",  \"data_records\": '' @ dec (length (store_writes tr)) @
          '',  \"data\": ['' @ json_array_body (store_writes tr) @ '']}\<newline>'') \<and>
   (\<forall>ns db js e out tr content.
      gen_plan_empty ns db js e = (out, tr) \<and> json_file tr = Some content \<longrightarrow>
        store_writes tr = [] \<and>
        content =
          ''{  \"generated_by\":\"testgen\",  \"generated_time\":\"'' @ dec (unat (time e)) @
          ''\",  \"data_records\": 0,  \"data\": []}\<newline>'')"
proof (intro conjI allI impI)
  fix ns db js e out tr content
  assume a: "gen_plan_empty ns db js e = (out, tr) \<and> json_file tr = Some content"
  with json_file_empty_cases [of ns db js e out tr]
  have tr: "tr = empty_success_trace ns db js e" by auto
  with a show "store_writes tr = []" by (simp add: store_writes_empty_success)
  from a tr have "content = json_document (time e) 0 []"
    by (simp add: json_file_empty_success)
  then show "content =
          ''{  \"generated_by\":\"testgen\",  \"generated_time\":\"'' @ dec (unat (time e)) @
          ''\",  \"data_records\": 0,  \"data\": []}\<newline>''"
    by (simp add: json_document_text dec_small)
next
  fix argv0 opts e out tr content
  assume a: "main argv0 opts e = (out, tr) \<and> json_file tr = Some content"
  then have f: "json_file tr = Some content" by simp
  from a main_cases [of argv0 opts e out tr]
  consider (usage) "tr = usage argv0"
    | (unknown) p where "tr = [Stderr (''Unknown test plan '' @ p @ ''\<newline>'')]"
    | (basic) ns db js where "gen_plan_basic ns db js e = (out, tr)"
    | (empty) ns db js where "gen_plan_empty ns db js e = (out, tr)"
    by blast
  then have r: "out = Exit 0 \<and>
        content = json_document (time e) (length (store_writes tr)) (store_writes tr)"
  proof cases
    case usage
    with f show ?thesis by (simp add: json_file_usage)
  next
    case unknown
    with f show ?thesis by (simp add: json_file_def)
  next
    case basic
    with f json_file_basic_cases [of ns db js e out tr]
    have "out = Exit 0" and tr: "tr = basic_success_trace ns db js e" by auto
    with f show ?thesis
      by (simp add: store_writes_basic_success json_file_basic_success length_basic_data)
  next
    case empty
    with f json_file_empty_cases [of ns db js e out tr]
    have "out = Exit 0" and tr: "tr = empty_success_trace ns db js e" by auto
    with f show ?thesis
      by (simp add: store_writes_empty_success json_file_empty_success)
  qed
  then show "out = Exit 0" by simp
  from r show "content =
          ''{  \"generated_by\":\"testgen\",  \"generated_time\":\"'' @ dec (unat (time e)) @
          ''\",  \"data_records\": '' @ dec (length (store_writes tr)) @
          '',  \"data\": ['' @ json_array_body (store_writes tr) @ '']}\<newline>''"
    by (simp only: json_document_text)
qed

theorem data_records_equals_data_length_and_store_writes_witness:
  "main ''testgen'' [Opt_o ''t.db'', Opt_j ''t.json''] env_ok =
     (Exit 0, basic_success_trace False ''t.db'' ''t.json'' env_ok) \<and>
   length (store_writes (basic_success_trace False ''t.db'' ''t.json'' env_ok)) = 10001 \<and>
   store_writes (basic_success_trace False ''t.db'' ''t.json'' env_ok) ! 10000 =
     (''key 10000'', ''value 10000'') \<and>
   json_file (basic_success_trace False ''t.db'' ''t.json'' env_ok) =
     Some (''{  \"generated_by\":\"testgen\",  \"generated_time\":\"1700000000\",'' @
           ''  \"data_records\": 10001,  \"data\": ['' @
           json_array_body (store_writes (basic_success_trace False ''t.db'' ''t.json'' env_ok)) @
           '']}\<newline>'') \<and>
   main ''testgen'' [Opt_o ''t.db'', Opt_j ''t.json'', Opt_p ''empty''] env_ok =
     (Exit 0, empty_success_trace False ''t.db'' ''t.json'' env_ok) \<and>
   store_writes (empty_success_trace False ''t.db'' ''t.json'' env_ok) = [] \<and>
   json_file (empty_success_trace False ''t.db'' ''t.json'' env_ok) =
     Some (''{  \"generated_by\":\"testgen\",  \"generated_time\":\"1700000000\",'' @
           ''  \"data_records\": 0,  \"data\": []}\<newline>'')"
proof -
  note claim = data_records_equals_data_length_and_store_writes
  let ?b = "basic_success_trace False ''t.db'' ''t.json'' env_ok"
  let ?e = "empty_success_trace False ''t.db'' ''t.json'' env_ok"
  have mb: "main ''testgen'' [Opt_o ''t.db'', Opt_j ''t.json''] env_ok = (Exit 0, ?b)"
    by (rule env_ok_main_basic)
  have jb: "json_file ?b = Some (json_document (time env_ok) 10001 basic_data)"
    by (rule json_file_basic_success)
  have sb: "store_writes ?b = basic_data"
    by (rule store_writes_basic_success)
  have lb: "length (store_writes ?b) = 10001"
    by (simp add: sb length_basic_data)
  have nb: "store_writes ?b ! 10000 = (''key 10000'', ''value 10000'')"
    by (simp add: sb nth_basic_data dec_small)
  from claim mb jb
  have "json_document (time env_ok) 10001 basic_data =
          ''{  \"generated_by\":\"testgen\",  \"generated_time\":\"'' @
          dec (unat (time env_ok)) @
          ''\",  \"data_records\": '' @ dec (length (store_writes ?b)) @
          '',  \"data\": ['' @ json_array_body (store_writes ?b) @ '']}\<newline>''"
    by blast
  with jb have fb: "json_file ?b =
     Some (''{  \"generated_by\":\"testgen\",  \"generated_time\":\"1700000000\",'' @
           ''  \"data_records\": 10001,  \"data\": ['' @
           json_array_body (store_writes ?b) @ '']}\<newline>'')"
    unfolding lb dec_time_env_ok dec_10001 by simp
  have me: "main ''testgen'' [Opt_o ''t.db'', Opt_j ''t.json'', Opt_p ''empty''] env_ok =
              (Exit 0, ?e)"
    by (rule env_ok_main_empty)
  have ge: "gen_plan_empty False ''t.db'' ''t.json'' env_ok = (Exit 0, ?e)"
    by (rule env_ok_run_empty)
  have je: "json_file ?e = Some (json_document (time env_ok) 0 [])"
    by (rule json_file_empty_success)
  from claim ge je
  have se: "store_writes ?e = []"
    and "json_document (time env_ok) 0 [] =
          ''{  \"generated_by\":\"testgen\",  \"generated_time\":\"'' @
          dec (unat (time env_ok)) @ ''\",  \"data_records\": 0,  \"data\": []}\<newline>''"
    by blast+
  with je have fe: "json_file ?e =
     Some (''{  \"generated_by\":\"testgen\",  \"generated_time\":\"1700000000\",'' @
           ''  \"data_records\": 0,  \"data\": []}\<newline>'')"
    unfolding dec_time_env_ok by simp
  from mb lb nb fb me se fe show ?thesis by blast
qed

text \<open>
  C3. Two successful runs of the basic plan with the same numeric-sync flag, in any two
  worlds (different clocks, different library behaviour, different paths), store the same
  records in the same order and write the same data array and record count; the two JSON
  files differ at most in the time stamp, and are equal when the clocks agree.
\<close>

theorem basic_plan_deterministic:
  assumes "gen_plan_basic ns db1 js1 e1 = (Exit 0, tr1)"
    and "gen_plan_basic ns db2 js2 e2 = (Exit 0, tr2)"
  shows "store_writes tr1 = basic_data \<and> store_writes tr2 = basic_data \<and>
         json_file tr1 = Some (json_document (time e1) 10001 basic_data) \<and>
         json_file tr2 = Some (json_document (time e2) 10001 basic_data) \<and>
         (time e1 = time e2 \<longrightarrow> json_file tr1 = json_file tr2)"
proof -
  from assms(1) have 1: "tr1 = basic_success_trace ns db1 js1 e1"
    by (rule gen_plan_basic_exit_0(4))
  from assms(2) have 2: "tr2 = basic_success_trace ns db2 js2 e2"
    by (rule gen_plan_basic_exit_0(4))
  show ?thesis
    by (simp add: 1 2 store_writes_basic_success json_file_basic_success)
qed

theorem basic_plan_deterministic_witness:
  "gen_plan_basic True ''a.db'' ''a.json'' env_ok =
     (Exit 0, basic_success_trace True ''a.db'' ''a.json'' env_ok) \<and>
   gen_plan_basic True ''b.db'' ''b.json'' env_later =
     (Exit 0, basic_success_trace True ''b.db'' ''b.json'' env_later) \<and>
   time env_ok \<noteq> time env_later \<and>
   store_writes (basic_success_trace True ''a.db'' ''a.json'' env_ok) =
     store_writes (basic_success_trace True ''b.db'' ''b.json'' env_later) \<and>
   json_file (basic_success_trace True ''a.db'' ''a.json'' env_ok) =
     Some (json_document 1700000000 10001 basic_data) \<and>
   json_file (basic_success_trace True ''b.db'' ''b.json'' env_later) =
     Some (json_document 1700003600 10001 basic_data)"
proof -
  have t: "time env_ok = 1700000000" "time env_later = 1700003600"
    by (simp_all add: env_ok_def env_later_def)
  from basic_plan_deterministic [OF env_ok_run_basic env_later_run_basic,
      of True "''a.db''" "''a.json''" "''b.db''" "''b.json''"]
  show ?thesis
    by (simp add: t env_ok_run_basic env_later_run_basic)
qed

text \<open>
  C4. For either plan, a successful run with the numeric-sync flag and a successful run
  without it store the same records and write the same data array and record count, and
  the same file when the clocks agree. The flag reaches only the flags argument of
  \<^verbatim>\<open>gdbm_open\<close>, the first event of a run: when the library answers both opens alike,
  the two runs end alike and all their later events are equal.
\<close>

theorem numsync_flag_changes_only_open_flags:
  "(\<forall>db js e1 e2 tr1 tr2.
      gen_plan_basic True db js e1 = (Exit 0, tr1) \<and>
      gen_plan_basic False db js e2 = (Exit 0, tr2) \<longrightarrow>
        store_writes tr1 = store_writes tr2 \<and>
        json_file tr1 =
          Some (json_document (time e1) (length (store_writes tr1)) (store_writes tr1)) \<and>
        json_file tr2 =
          Some (json_document (time e2) (length (store_writes tr1)) (store_writes tr1)) \<and>
        (time e1 = time e2 \<longrightarrow> json_file tr1 = json_file tr2)) \<and>
   (\<forall>db js e1 e2 tr1 tr2.
      gen_plan_empty True db js e1 = (Exit 0, tr1) \<and>
      gen_plan_empty False db js e2 = (Exit 0, tr2) \<longrightarrow>
        store_writes tr1 = store_writes tr2 \<and>
        json_file tr1 =
          Some (json_document (time e1) (length (store_writes tr1)) (store_writes tr1)) \<and>
        json_file tr2 =
          Some (json_document (time e2) (length (store_writes tr1)) (store_writes tr1)) \<and>
        (time e1 = time e2 \<longrightarrow> json_file tr1 = json_file tr2)) \<and>
   (\<forall>db js e.
      gdbm_open e db (GDBM_NEWDB e OR GDBM_NUMSYNC e) = gdbm_open e db (GDBM_NEWDB e OR 0) \<longrightarrow>
        fst (gen_plan_basic True db js e) = fst (gen_plan_basic False db js e) \<and>
        tl (snd (gen_plan_basic True db js e)) = tl (snd (gen_plan_basic False db js e)) \<and>
        fst (gen_plan_empty True db js e) = fst (gen_plan_empty False db js e) \<and>
        tl (snd (gen_plan_empty True db js e)) = tl (snd (gen_plan_empty False db js e))) \<and>
   (\<forall>ns db js e.
      hd (snd (gen_plan_basic ns db js e)) =
        Gdbm_open db 512 (GDBM_NEWDB e OR (if ns then GDBM_NUMSYNC e else 0)) 438
          (gdbm_open e db (GDBM_NEWDB e OR (if ns then GDBM_NUMSYNC e else 0))) \<and>
      hd (snd (gen_plan_empty ns db js e)) =
        Gdbm_open db 512 (GDBM_NEWDB e OR (if ns then GDBM_NUMSYNC e else 0)) 438
          (gdbm_open e db (GDBM_NEWDB e OR (if ns then GDBM_NUMSYNC e else 0))))"
proof (intro conjI allI impI)
  fix db js e1 e2 tr1 tr2
  assume a: "gen_plan_basic True db js e1 = (Exit 0, tr1) \<and>
             gen_plan_basic False db js e2 = (Exit 0, tr2)"
  then have 1: "tr1 = basic_success_trace True db js e1"
    and 2: "tr2 = basic_success_trace False db js e2"
    by (simp_all add: gen_plan_basic_exit_0(4))
  show "store_writes tr1 = store_writes tr2"
    by (simp add: 1 2 store_writes_basic_success)
  show "json_file tr1 =
          Some (json_document (time e1) (length (store_writes tr1)) (store_writes tr1))"
    by (simp add: 1 store_writes_basic_success json_file_basic_success length_basic_data)
  show "json_file tr2 =
          Some (json_document (time e2) (length (store_writes tr1)) (store_writes tr1))"
    by (simp add: 1 2 store_writes_basic_success json_file_basic_success length_basic_data)
  show "json_file tr1 = json_file tr2" if "time e1 = time e2"
    using that by (simp add: 1 2 json_file_basic_success)
next
  fix db js e1 e2 tr1 tr2
  assume a: "gen_plan_empty True db js e1 = (Exit 0, tr1) \<and>
             gen_plan_empty False db js e2 = (Exit 0, tr2)"
  then have 1: "tr1 = empty_success_trace True db js e1"
    and 2: "tr2 = empty_success_trace False db js e2"
    by (simp_all add: gen_plan_empty_exit_0(4))
  show "store_writes tr1 = store_writes tr2"
    by (simp add: 1 2 store_writes_empty_success)
  show "json_file tr1 =
          Some (json_document (time e1) (length (store_writes tr1)) (store_writes tr1))"
    by (simp add: 1 store_writes_empty_success json_file_empty_success)
  show "json_file tr2 =
          Some (json_document (time e2) (length (store_writes tr1)) (store_writes tr1))"
    by (simp add: 1 2 store_writes_empty_success json_file_empty_success)
  show "json_file tr1 = json_file tr2" if "time e1 = time e2"
    using that by (simp add: 1 2 json_file_empty_success)
next
  fix db js and e :: env
  assume "gdbm_open e db (GDBM_NEWDB e OR GDBM_NUMSYNC e) = gdbm_open e db (GDBM_NEWDB e OR 0)"
  then have o: "gdbm_open e db (open_flags e True) = gdbm_open e db (open_flags e False)"
    by (simp add: open_flags_def)
  from gen_plan_basic_numsync [OF o]
  show "fst (gen_plan_basic True db js e) = fst (gen_plan_basic False db js e)"
    and "tl (snd (gen_plan_basic True db js e)) = tl (snd (gen_plan_basic False db js e))"
    by simp_all
  from gen_plan_empty_numsync [OF o]
  show "fst (gen_plan_empty True db js e) = fst (gen_plan_empty False db js e)"
    and "tl (snd (gen_plan_empty True db js e)) = tl (snd (gen_plan_empty False db js e))"
    by simp_all
next
  fix ns db js e
  show "hd (snd (gen_plan_basic ns db js e)) =
        Gdbm_open db 512 (GDBM_NEWDB e OR (if ns then GDBM_NUMSYNC e else 0)) 438
          (gdbm_open e db (GDBM_NEWDB e OR (if ns then GDBM_NUMSYNC e else 0)))"
    using gen_plan_basic_hd [of ns db js e] by (simp only: open_flags_def)
  show "hd (snd (gen_plan_empty ns db js e)) =
        Gdbm_open db 512 (GDBM_NEWDB e OR (if ns then GDBM_NUMSYNC e else 0)) 438
          (gdbm_open e db (GDBM_NEWDB e OR (if ns then GDBM_NUMSYNC e else 0)))"
    using gen_plan_empty_hd [of ns db js e] by (simp only: open_flags_def)
qed

theorem numsync_flag_changes_only_open_flags_witness:
  "gen_plan_basic True ''t.db'' ''t.json'' env_ok =
     (Exit 0, basic_success_trace True ''t.db'' ''t.json'' env_ok) \<and>
   gen_plan_basic False ''t.db'' ''t.json'' env_ok =
     (Exit 0, basic_success_trace False ''t.db'' ''t.json'' env_ok) \<and>
   json_file (basic_success_trace True ''t.db'' ''t.json'' env_ok) =
     json_file (basic_success_trace False ''t.db'' ''t.json'' env_ok) \<and>
   gen_plan_empty True ''t.db'' ''t.json'' env_ok =
     (Exit 0, empty_success_trace True ''t.db'' ''t.json'' env_ok) \<and>
   gen_plan_empty False ''t.db'' ''t.json'' env_ok =
     (Exit 0, empty_success_trace False ''t.db'' ''t.json'' env_ok) \<and>
   json_file (empty_success_trace True ''t.db'' ''t.json'' env_ok) =
     json_file (empty_success_trace False ''t.db'' ''t.json'' env_ok) \<and>
   tl (snd (gen_plan_empty True ''t.db'' ''t.json'' env_ok)) =
     tl (snd (gen_plan_empty False ''t.db'' ''t.json'' env_ok)) \<and>
   hd (snd (gen_plan_empty True ''t.db'' ''t.json'' env_ok)) =
     Gdbm_open ''t.db'' 512 0x2003 438 True \<and>
   hd (snd (gen_plan_empty False ''t.db'' ''t.json'' env_ok)) =
     Gdbm_open ''t.db'' 512 3 438 True"
proof -
  note claim = numsync_flag_changes_only_open_flags
  have b: "json_file (basic_success_trace True ''t.db'' ''t.json'' env_ok) =
           json_file (basic_success_trace False ''t.db'' ''t.json'' env_ok)"
    using claim env_ok_run_basic [of True "''t.db''" "''t.json''"]
      env_ok_run_basic [of False "''t.db''" "''t.json''"] by blast
  have c: "json_file (empty_success_trace True ''t.db'' ''t.json'' env_ok) =
           json_file (empty_success_trace False ''t.db'' ''t.json'' env_ok)"
    using claim env_ok_run_empty [of True "''t.db''" "''t.json''"]
      env_ok_run_empty [of False "''t.db''" "''t.json''"] by blast
  have o: "gdbm_open env_ok ''t.db'' (GDBM_NEWDB env_ok OR GDBM_NUMSYNC env_ok) =
           gdbm_open env_ok ''t.db'' (GDBM_NEWDB env_ok OR 0)"
    by (simp add: env_ok_def)
  have d: "tl (snd (gen_plan_empty True ''t.db'' ''t.json'' env_ok)) =
           tl (snd (gen_plan_empty False ''t.db'' ''t.json'' env_ok))"
    using claim o by blast
  have h: "hd (snd (gen_plan_empty ns ''t.db'' ''t.json'' env_ok)) =
        Gdbm_open ''t.db'' 512 (GDBM_NEWDB env_ok OR (if ns then GDBM_NUMSYNC env_ok else 0))
          438 (gdbm_open env_ok ''t.db''
                 (GDBM_NEWDB env_ok OR (if ns then GDBM_NUMSYNC env_ok else 0)))" for ns
    using claim by blast
  have f: "(3::32 word) OR 0x2000 = 0x2003" by simp
  from h [of True] h [of False]
  have "hd (snd (gen_plan_empty True ''t.db'' ''t.json'' env_ok)) =
          Gdbm_open ''t.db'' 512 0x2003 438 True"
    and "hd (snd (gen_plan_empty False ''t.db'' ''t.json'' env_ok)) =
          Gdbm_open ''t.db'' 512 3 438 True"
    by (simp_all add: env_ok_def f)
  with b c d env_ok_run_basic env_ok_run_empty show ?thesis by simp
qed

text \<open>
  C5. When the store call for record \<open>k\<close> is the first to return a non-zero code \<open>rc\<close>, the
  run of the basic plan consists of the open call, the \<open>k\<close> successful store calls, the
  failed call and the diagnostic naming \<open>rc\<close> and the key of record \<open>k\<close>, and ends with
  exit status 1: no further store call is made and the JSON file is never created.
\<close>

theorem store_write_failure_aborts:
  assumes "gdbm_open e db (GDBM_NEWDB e OR (if ns then GDBM_NUMSYNC e else 0))"
    and "k < 10001"
    and "\<forall>j<k. gdbm_store e j (''key '' @ dec j) (''value '' @ dec j) = 0"
    and "gdbm_store e k (''key '' @ dec k) (''value '' @ dec k) = rc"
    and "rc \<noteq> 0"
  shows "gen_plan_basic ns db js e =
           (Exit 1,
            Gdbm_open db 512 (GDBM_NEWDB e OR (if ns then GDBM_NUMSYNC e else 0)) 438 True #
            map (\<lambda>j. Gdbm_store (''key '' @ dec j) (''value '' @ dec j) (GDBM_REPLACE e) 0)
              [0..<k] @
            [Gdbm_store (''key '' @ dec k) (''value '' @ dec k) (GDBM_REPLACE e) rc,
             Stderr (''gdbm_store failed, rc '' @ fmt_d rc @ '', key key '' @ dec k @
                     ''\<newline>'')]) \<and>
         store_writes (snd (gen_plan_basic ns db js e)) =
           map (\<lambda>j. (''key '' @ dec j, ''value '' @ dec j)) [0..<k] \<and>
         json_file (snd (gen_plan_basic ns db js e)) = None"
proof -
  have o: "gdbm_open e db (open_flags e ns)"
    using assms(1) by (simp only: open_flags_def)
  have k: "k < N_REC" using assms(2) by (simp add: N_REC_def)
  have run: "gen_plan_basic ns db js e =
           (Exit 1, Gdbm_open db 512 (open_flags e ns) 438 True #
                    map (stored e) (map record_text [0..<k]) @
                    store_failure e (record_text k) rc)"
    using assms(3) by (intro gen_plan_basic_store_fails [OF o k _ assms(4,5)]) simp
  have 1: "store_writes (snd (gen_plan_basic ns db js e)) =
             map (\<lambda>j. (''key '' @ dec j, ''value '' @ dec j)) [0..<k]"
    unfolding run
    by (simp add: store_writes_append store_writes_stored store_writes_store_failure
          assms(5) kv_of_records_upto del: map_map)
  have 2: "json_file (snd (gen_plan_basic ns db js e)) = None"
    unfolding run
    by (simp add: json_file_def file_event_stored file_event_store_failure del: map_map)
  from run 1 2 show ?thesis
    unfolding stored_records store_failure_record open_flags_def by simp
qed

theorem store_write_failure_aborts_witness:
  "gen_plan_basic False ''t.db'' ''t.json'' env_store_fails =
     (Exit 1,
      [Gdbm_open ''t.db'' 512 3 438 True,
       Gdbm_store ''key 0'' ''value 0'' 1 0,
       Gdbm_store ''key 1'' ''value 1'' 1 0,
       Gdbm_store ''key 2'' ''value 2'' 1 (- 1),
       Stderr ''gdbm_store failed, rc -1, key key 2\<newline>'']) \<and>
   store_writes (snd (gen_plan_basic False ''t.db'' ''t.json'' env_store_fails)) =
     [(''key 0'', ''value 0''), (''key 1'', ''value 1'')] \<and>
   json_file (snd (gen_plan_basic False ''t.db'' ''t.json'' env_store_fails)) = None"
proof -
  have u: "[0..<2] = [0, Suc 0]" by (simp add: upt_rec)
  have "gdbm_open env_store_fails ''t.db''
          (GDBM_NEWDB env_store_fails OR (if False then GDBM_NUMSYNC env_store_fails else 0))"
    and "(2::nat) < 10001"
    and "\<forall>j<2. gdbm_store env_store_fails j (''key '' @ dec j) (''value '' @ dec j) = 0"
    and "gdbm_store env_store_fails 2 (''key '' @ dec 2) (''value '' @ dec 2) = - 1"
    and "(- 1 :: int) \<noteq> 0"
    by (simp_all add: env_store_fails_def env_ok_def)
  from store_write_failure_aborts [OF this, where js = "''t.json''"]
  show ?thesis
    by (simp add: env_store_fails_def env_ok_def u dec_small dec_Suc_0 fmt_d_def json_file_def)
qed

text \<open>
  C6. A plan name other than \<^verbatim>\<open>basic\<close> and \<^verbatim>\<open>empty\<close> makes \<^verbatim>\<open>main\<close> return 1
  without opening the store, storing anything or creating the JSON file; with both output
  paths given, all the run does is print the diagnostic that carries the name. For the two
  known names the run is exactly the run of the plan's function, so nothing happens before
  the plan is chosen.
\<close>

theorem unknown_plan_rejected:
  assumes "getopt_loop opts
             \<lparr>out_fn = None, out_json = None, plan = ''basic'', numsync = False\<rparr> = Some v"
  shows "(plan v \<noteq> ''basic'' \<and> plan v \<noteq> ''empty'' \<longrightarrow>
            fst (main argv0 opts e) = Exit 1 \<and>
            handle_at_return (snd (main argv0 opts e)) = Not_opened \<and>
            store_writes (snd (main argv0 opts e)) = [] \<and>
            json_file (snd (main argv0 opts e)) = None \<and>
            (out_fn v \<noteq> None \<and> out_json v \<noteq> None \<longrightarrow>
               main argv0 opts e =
                 (Exit 1, [Stderr (''Unknown test plan '' @ plan v @ ''\<newline>'')]))) \<and>
         (out_fn v = Some db \<and> out_json v = Some js \<and> plan v = ''basic'' \<longrightarrow>
            main argv0 opts e = gen_plan_basic (numsync v) db js e) \<and>
         (out_fn v = Some db \<and> out_json v = Some js \<and> plan v = ''empty'' \<longrightarrow>
            main argv0 opts e = gen_plan_empty (numsync v) db js e)"
  using assms
  by (auto simp: main_def handle_at_return_def json_file_def store_writes_usage
        handle_usage [unfolded handle_at_return_def] json_file_usage [unfolded json_file_def]
        split: option.splits)

theorem unknown_plan_rejected_witness:
  "main ''testgen'' [Opt_o ''t.db'', Opt_p ''nosuchplan'', Opt_j ''t.json'', Opt_n] env_ok =
     (Exit 1, [Stderr ''Unknown test plan nosuchplan\<newline>'']) \<and>
   handle_at_return
     (snd (main ''testgen'' [Opt_o ''t.db'', Opt_p ''nosuchplan'', Opt_j ''t.json'', Opt_n]
             env_ok)) = Not_opened \<and>
   json_file
     (snd (main ''testgen'' [Opt_o ''t.db'', Opt_p ''nosuchplan'', Opt_j ''t.json'', Opt_n]
             env_ok)) = None"
proof -
  let ?v = "\<lparr>out_fn = Some ''t.db'', out_json = Some ''t.json'', plan = ''nosuchplan'',
             numsync = True\<rparr>"
  have "getopt_loop [Opt_o ''t.db'', Opt_p ''nosuchplan'', Opt_j ''t.json'', Opt_n]
          \<lparr>out_fn = None, out_json = None, plan = ''basic'', numsync = False\<rparr> = Some ?v"
    by simp
  from unknown_plan_rejected [OF this, where ?argv0.0 = "''testgen''" and e = env_ok]
  show ?thesis by (simp add: handle_at_return_def json_file_def)
qed

text \<open>
  C7 (amended). Under the empty plan, when the store was opened and the count query
  succeeds with a non-zero count, the run is stopped by the failed assertion
  \<^verbatim>\<open>count == 0\<close>: the process aborts, which is not an exit with status 1. The run
  consists of the open call, the count query and the assertion's diagnostic; no JSON file
  is created.
\<close>

theorem empty_plan_nonzero_count_aborts:
  assumes "gdbm_open e db (GDBM_NEWDB e OR (if ns then GDBM_NUMSYNC e else 0))"
    and "gdbm_count e = (0, c)" and "c \<noteq> 0"
  shows "gen_plan_empty ns db js e =
           (Abort,
            [Gdbm_open db 512 (GDBM_NEWDB e OR (if ns then GDBM_NUMSYNC e else 0)) 438 True,
             Gdbm_count 0 c, Assert_fail ''count == 0'']) \<and>
         json_file (snd (gen_plan_empty ns db js e)) = None"
  using assms by (simp add: gen_plan_empty_def Let_def json_file_def)

theorem empty_plan_nonzero_count_aborts_witness:
  "gen_plan_empty False ''t.db'' ''t.json'' env_count_5 =
     (Abort, [Gdbm_open ''t.db'' 512 3 438 True, Gdbm_count 0 5, Assert_fail ''count == 0'']) \<and>
   json_file (snd (gen_plan_empty False ''t.db'' ''t.json'' env_count_5)) = None"
proof -
  have "gdbm_open env_count_5 ''t.db''
          (GDBM_NEWDB env_count_5 OR (if False then GDBM_NUMSYNC env_count_5 else 0))"
    and "gdbm_count env_count_5 = (0, 5)" and "(5 :: 64 word) \<noteq> 0"
    by (simp_all add: env_count_5_def env_ok_def)
  from empty_plan_nonzero_count_aborts [OF this, where js = "''t.json''"]
  show ?thesis by (simp add: env_count_5_def env_ok_def json_file_def)
qed

theorem empty_plan_nonzero_count_counterexample:
  "snd (gdbm_count env_count_5) \<noteq> 0 \<and>
   fst (gen_plan_empty False ''t.db'' ''t.json'' env_count_5) \<noteq> Exit 1"
  by (simp add: gen_plan_empty_def Let_def env_count_5_def env_ok_def)

text \<open>
  C8 (amended). A successful run of the empty plan writes a JSON file whose content is
  exactly the text of the program's format string: an opening brace, each of the four
  fields preceded by two spaces, a space after the colon of \<^verbatim>\<open>data_records\<close> and of
  \<^verbatim>\<open>data\<close>, the time in decimal (the 64-bit value read as unsigned), the count 0, an
  empty array, the closing brace and one newline.
\<close>

theorem empty_plan_json_text:
  assumes "gen_plan_empty ns db js e = (Exit 0, tr)"
  shows "json_file tr =
           Some (''{  \"generated_by\":\"testgen\",  \"generated_time\":\"'' @
                 dec (unat (time e)) @
                 ''\",  \"data_records\": 0,  \"data\": []}\<newline>'')"
proof -
  from assms have "tr = empty_success_trace ns db js e"
    by (rule gen_plan_empty_exit_0(4))
  then show ?thesis
    by (simp add: empty_success_trace_def json_file_def json_header_def dec_small)
qed

theorem empty_plan_json_text_witness:
  "gen_plan_empty False ''/tmp/t.db'' ''/tmp/t.json'' env_ok =
     (Exit 0, empty_success_trace False ''/tmp/t.db'' ''/tmp/t.json'' env_ok) \<and>
   json_file (empty_success_trace False ''/tmp/t.db'' ''/tmp/t.json'' env_ok) =
     Some (''{  \"generated_by\":\"testgen\",  \"generated_time\":\"1700000000\",'' @
           ''  \"data_records\": 0,  \"data\": []}\<newline>'')"
  using empty_plan_json_text [OF env_ok_run_empty, of False "''/tmp/t.db''" "''/tmp/t.json''"]
  unfolding dec_time_env_ok by (simp add: env_ok_run_empty)

theorem empty_plan_json_text_counterexample:
  "fst (gen_plan_empty False ''/tmp/t.db'' ''/tmp/t.json'' env_ok) = Exit 0 \<and>
   json_file (snd (gen_plan_empty False ''/tmp/t.db'' ''/tmp/t.json'' env_ok)) \<noteq>
     Some (''{\"generated_by\":\"testgen\",\"generated_time\":\"1700000000\",'' @
           ''\"data_records\":0,\"data\":[]}\<newline>'')"
  by (simp add: env_ok_run_empty empty_success_trace_def json_file_def json_header_def
        dec_time_env_ok)

text \<open>
  C9 (amended). After a successful open, the store handle is closed when the run
  returns exactly when no store operation failed: in the basic plan when every store call
  returned 0, in the empty plan when the count query returned code 0 and count 0, and
  then whether or not the JSON file could be opened. When a store call, the count query
  or the assertion on the count fails, the run ends with the handle still open.
\<close>

theorem store_handle_closed_iff_store_calls_succeed:
  "(gdbm_open e db (GDBM_NEWDB e OR (if ns then GDBM_NUMSYNC e else 0)) \<longrightarrow>
      handle_at_return (snd (gen_plan_basic ns db js e)) =
        (if \<forall>j<10001. gdbm_store e j (''key '' @ dec j) (''value '' @ dec j) = 0
         then Closed else Opened)) \<and>
   (gdbm_open e db (GDBM_NEWDB e OR (if ns then GDBM_NUMSYNC e else 0)) \<longrightarrow>
      handle_at_return (snd (gen_plan_empty ns db js e)) =
        (if gdbm_count e = (0, 0) then Closed else Opened))"
proof (intro conjI impI)
  assume "gdbm_open e db (GDBM_NEWDB e OR (if ns then GDBM_NUMSYNC e else 0))"
  then have o: "gdbm_open e db (open_flags e ns)" by (simp only: open_flags_def)
  show "handle_at_return (snd (gen_plan_basic ns db js e)) =
        (if \<forall>j<10001. gdbm_store e j (''key '' @ dec j) (''value '' @ dec j) = 0
         then Closed else Opened)"
  proof (cases "\<forall>j<10001. gdbm_store e j (''key '' @ dec j) (''value '' @ dec j) = 0")
    case True
    then have s: "\<And>j. j < N_REC \<Longrightarrow>
        gdbm_store e j (''key '' @ dec j) (''value '' @ dec j) = 0"
      by (simp add: N_REC_def)
    show ?thesis
    proof (cases "fopen e js")
      case True
      from gen_plan_basic_success [OF o s True] \<open>\<forall>j<10001. _\<close>
      show ?thesis by (simp add: handle_basic_success)
    next
      case False
      from gen_plan_basic_fopen_fails [OF o s False] \<open>\<forall>j<10001. _\<close>
      show ?thesis by (simp add: handle_basic_fopen_fails del: map_map)
    qed
  next
    case False
    have "\<not> snd (store_loop e 0 (map record_text [0..<N_REC]))"
    proof
      assume "snd (store_loop e 0 (map record_text [0..<N_REC]))"
      from store_loop_records_done [OF this] False show False
        by (simp add: N_REC_def)
    qed
    from gen_plan_basic_not_done [OF o this] False
    show ?thesis
      by (simp add: handle_at_return_def handle_event_store_loop)
  qed
next
  assume o: "gdbm_open e db (GDBM_NEWDB e OR (if ns then GDBM_NUMSYNC e else 0))"
  obtain rc c where g: "gdbm_count e = (rc, c)" by (cases "gdbm_count e")
  with o show "handle_at_return (snd (gen_plan_empty ns db js e)) =
        (if gdbm_count e = (0, 0) then Closed else Opened)"
    by (simp add: gen_plan_empty_def Let_def handle_at_return_def)
qed

theorem store_handle_closed_iff_store_calls_succeed_witness:
  "handle_at_return (snd (gen_plan_basic False ''t.db'' ''t.json'' env_ok)) = Closed \<and>
   handle_at_return (snd (gen_plan_basic False ''t.db'' ''t.json'' env_store_fails)) = Opened \<and>
   handle_at_return (snd (gen_plan_empty False ''t.db'' ''t.json'' env_ok)) = Closed \<and>
   handle_at_return (snd (gen_plan_empty False ''t.db'' ''t.json'' env_count_5)) = Opened"
proof -
  note claim = store_handle_closed_iff_store_calls_succeed
  have 1: "handle_at_return (snd (gen_plan_basic False ''t.db'' ''t.json'' env_ok)) = Closed"
    using claim [of env_ok "''t.db''" False "''t.json''"] by (simp add: env_ok_def)
  have "\<not> (\<forall>j<10001. gdbm_store env_store_fails j (''key '' @ dec j) (''value '' @ dec j) = 0)"
    by (auto simp: env_store_fails_def env_ok_def intro: exI [of _ 2])
  then have 2: "handle_at_return (snd (gen_plan_basic False ''t.db'' ''t.json'' env_store_fails))
                  = Opened"
    using claim [of env_store_fails "''t.db''" False "''t.json''"]
    by (simp add: env_store_fails_def env_ok_def)
  have 3: "handle_at_return (snd (gen_plan_empty False ''t.db'' ''t.json'' env_ok)) = Closed"
    using claim [of env_ok "''t.db''" False "''t.json''"] by (simp add: env_ok_def)
  have 4: "handle_at_return (snd (gen_plan_empty False ''t.db'' ''t.json'' env_count_5))
             = Opened"
    using claim [of env_count_5 "''t.db''" False "''t.json''"]
    by (simp add: env_count_5_def env_ok_def)
  from 1 2 3 4 show ?thesis by blast
qed

theorem store_handle_left_open_counterexample:
  "gen_plan_basic False ''t.db'' ''t.json'' (env_ok\<lparr>gdbm_store := \<lambda>n k v. - 1\<rparr>) =
     (Exit 1,
      [Gdbm_open ''t.db'' 512 3 438 True,
       Gdbm_store ''key 0'' ''value 0'' 1 (- 1),
       Stderr ''gdbm_store failed, rc -1, key key 0\<newline>'']) \<and>
   handle_at_return
     (snd (gen_plan_basic False ''t.db'' ''t.json'' (env_ok\<lparr>gdbm_store := \<lambda>n k v. - 1\<rparr>))) =
     Opened"
proof -
  let ?e = "env_ok\<lparr>gdbm_store := \<lambda>n k v. - 1\<rparr>"
  have "gen_plan_basic False ''t.db'' ''t.json'' ?e =
          (Exit 1, Gdbm_open ''t.db'' 512 (open_flags ?e False) 438 True #
                   map (stored ?e) (map record_text [0..<0]) @
                   store_failure ?e (record_text 0) (- 1))"
    by (rule gen_plan_basic_store_fails) (simp_all add: env_ok_def open_flags_def N_REC_def)
  then show ?thesis
    by (simp add: env_ok_def open_flags_def store_failure_def record_text_def dec_small
          dec_Suc_0 fmt_d_def handle_at_return_def)
qed

text \<open>
  C10. For every index \<open>i\<close> below 10001 the formatted texts \<^verbatim>\<open>key i\<close> and
  \<^verbatim>\<open>value i\<close> are shorter than the 128-byte buffer, so \<^verbatim>\<open>snprintf\<close> keeps them
  whole: record \<open>i\<close> of the generated sequence holds exactly these two texts. The keys of
  the sequence are pairwise distinct.
\<close>

theorem basic_records_untruncated_distinct:
  "(\<forall>i < N_REC.
      length (''key '' @ dec i) < 128 \<and> length (''value '' @ dec i) < 128 \<and>
      snprintf 128 (''key '' @ dec i) = ''key '' @ dec i \<and>
      snprintf 128 (''value '' @ dec i) = ''value '' @ dec i \<and>
      key (gen_loop 0 [] ! i) = ''key '' @ dec i \<and>
      value_str (gen_loop 0 [] ! i) = ''value '' @ dec i) \<and>
   length (gen_loop 0 []) = 10001 \<and>
   distinct (map key (gen_loop 0 []))"
proof -
  have len: "length (gen_loop 0 []) = 10001"
    by (simp add: gen_loop_0 N_REC_def)
  have "inj_on (\<lambda>i. key (record_text i)) {0..<N_REC}"
    by (rule inj_onI) (rule record_text_inj)
  then have dist: "distinct (map key (gen_loop 0 []))"
    by (simp add: gen_loop_0 distinct_map comp_def)
  have "length (''key '' @ dec i) < 128 \<and> length (''value '' @ dec i) < 128 \<and>
      snprintf 128 (''key '' @ dec i) = ''key '' @ dec i \<and>
      snprintf 128 (''value '' @ dec i) = ''value '' @ dec i \<and>
      key (gen_loop 0 [] ! i) = ''key '' @ dec i \<and>
      value_str (gen_loop 0 [] ! i) = ''value '' @ dec i" if i: "i < N_REC" for i
  proof -
    from i have "length (dec i) \<le> 5" by (rule length_dec_rec)
    then have l: "length (''key '' @ dec i) < 128" "length (''value '' @ dec i) < 128"
      by simp_all
    have "gen_loop 0 [] ! i = record_text i"
      using i by (simp add: gen_loop_0)
    then have "key (gen_loop 0 [] ! i) = ''key '' @ dec i"
      "value_str (gen_loop 0 [] ! i) = ''value '' @ dec i"
      by (simp_all add: record_text_def)
    with l snprintf_key [OF i] snprintf_value [OF i] show ?thesis by blast
  qed
  with len dist show ?thesis by blast
qed

theorem basic_records_untruncated_distinct_witness:
  "length (''key '' @ dec 10000) < 128 \<and>
   snprintf 128 (''value '' @ dec 10000) = ''value 10000'' \<and>
   key (gen_loop 0 [] ! 10000) = ''key 10000'' \<and>
   value_str (gen_loop 0 [] ! 10000) = ''value 10000'' \<and>
   key (gen_loop 0 [] ! 7) = ''key 7''"
proof -
  have d: "dec 10000 = ''10000''" "dec 7 = ''7''"
    by (simp_all add: dec.simps digit_char_def)
  have "(10000::nat) < N_REC" "(7::nat) < N_REC"
    by (simp_all add: N_REC_def)
  then show ?thesis
    using basic_records_untruncated_distinct d by fastforce
qed

end
